theory Spec2Isabelle
  imports Main
begin

section \<open>Parsed survey documents\<close>

text \<open>
  \<^verbatim>\<open>generate-metadata.py\<close> works on what \<^verbatim>\<open>json.load\<close> returns: \<^verbatim>\<open>None\<close>, booleans,
  integers, strings, lists and dicts. A dict is kept as an association list read with
  \<open>map_of\<close>. Numbers are Python's unbounded integers; JSON numbers with a fraction or an
  exponent (Python floats) are outside this model. A string is its list of characters.
\<close>

datatype json =
    JNull
  | JBool bool
  | JInt int
  | JStr string
  | JList "json list"
  | JDict "(string \<times> json) list"

type_synonym dict = "(string \<times> json) list"

datatype py_error = TypeError | AttributeError | KeyError | IndexError

text \<open>\<^verbatim>\<open>d.get(k)\<close> gives \<^verbatim>\<open>None\<close> for a missing key, \<^verbatim>\<open>d.get(k, default)\<close> the default.\<close>

definition dict_get :: "dict \<Rightarrow> string \<Rightarrow> json" where
  "dict_get d k = (case map_of d k of None \<Rightarrow> JNull | Some v \<Rightarrow> v)"

definition dict_get_default :: "dict \<Rightarrow> string \<Rightarrow> json \<Rightarrow> json" where
  "dict_get_default d k dflt = (case map_of d k of None \<Rightarrow> dflt | Some v \<Rightarrow> v)"

text \<open>
  The elements of the Python set \<^verbatim>\<open>seen_inodes\<close>. Python hashes and compares \<^verbatim>\<open>True\<close> as
  \<^verbatim>\<open>1\<close> and \<^verbatim>\<open>False\<close> as \<^verbatim>\<open>0\<close>; lists and dicts cannot be hashed, and testing one for
  membership in a set raises \<^verbatim>\<open>TypeError\<close>.
\<close>

datatype key = KNone | KNum int | KStr string

fun py_key :: "json \<Rightarrow> key option" where
  "py_key JNull = Some KNone"
| "py_key (JBool b) = Some (KNum (if b then 1 else 0))"
| "py_key (JInt n) = Some (KNum n)"
| "py_key (JStr s) = Some (KStr s)"
| "py_key (JList xs) = None"
| "py_key (JDict d) = None"

text \<open>
  \<^verbatim>\<open>total_size += r\<close> with an integer \<^verbatim>\<open>total_size\<close>: a boolean counts as 0 or 1, anything
  that is not a number raises \<^verbatim>\<open>TypeError\<close>.
\<close>

fun py_add :: "int \<Rightarrow> json \<Rightarrow> py_error + int" where
  "py_add a (JInt n) = Inr (a + n)"
| "py_add a (JBool b) = Inr (a + (if b then 1 else 0))"
| "py_add a JNull = Inl TypeError"
| "py_add a (JStr s) = Inl TypeError"
| "py_add a (JList xs) = Inl TypeError"
| "py_add a (JDict d) = Inl TypeError"

section \<open>The size aggregator: \<^verbatim>\<open>get_entry_size\<close>\<close>

text \<open>
  The function returns the value the Python call returns (or the exception it raises)
  together with the set \<^verbatim>\<open>seen_inodes\<close> as the call leaves it; the set is mutated in place,
  so it is also given when the call raises. \<open>sum_children\<close> is the loop
  \<^verbatim>\<open>for i in range(1, len(entry))\<close> over the elements after the first, with the running
  \<^verbatim>\<open>total_size\<close>.
\<close>

fun get_entry_size :: "json \<Rightarrow> key set \<Rightarrow> (py_error + json) \<times> key set"
and sum_children :: "json list \<Rightarrow> int \<Rightarrow> key set \<Rightarrow> (py_error + json) \<times> key set"
where
  "get_entry_size (JDict entry) seen_inodes =
     (let ino = dict_get entry ''ino'' in
      if ino \<noteq> JNull then
        (case py_key ino of
           None \<Rightarrow> (Inl TypeError, seen_inodes)
         | Some k \<Rightarrow>
             if k \<in> seen_inodes then (Inr (JInt 0), seen_inodes)
             else (Inr (dict_get_default entry ''dsize'' (JInt 0)), insert k seen_inodes))
      else (Inr (dict_get_default entry ''dsize'' (JInt 0)), seen_inodes))"
| "get_entry_size (JList []) seen_inodes = (Inr (JInt 0), seen_inodes)"
| "get_entry_size (JList (meta # children)) seen_inodes = sum_children children 0 seen_inodes"
| "get_entry_size JNull seen_inodes = (Inr (JInt 0), seen_inodes)"
| "get_entry_size (JBool b) seen_inodes = (Inr (JInt 0), seen_inodes)"
| "get_entry_size (JInt n) seen_inodes = (Inr (JInt 0), seen_inodes)"
| "get_entry_size (JStr s) seen_inodes = (Inr (JInt 0), seen_inodes)"
| "sum_children [] total_size seen_inodes = (Inr (JInt total_size), seen_inodes)"
| "sum_children (child # rest) total_size seen_inodes =
     (case get_entry_size child seen_inodes of
        (Inl e, seen') \<Rightarrow> (Inl e, seen')
      | (Inr r, seen') \<Rightarrow>
          (case py_add total_size r of
             Inl e \<Rightarrow> (Inl e, seen')
           | Inr t \<Rightarrow> sum_children rest t seen'))"

section \<open>The summary extractor: \<^verbatim>\<open>generate_metadata\<close>\<close>

text \<open>
  \<^verbatim>\<open>len(x)\<close> and \<^verbatim>\<open>x[i]\<close> on a parsed value. A dict loaded from JSON has string keys only,
  so subscripting it with an integer raises \<^verbatim>\<open>KeyError\<close>; \<^verbatim>\<open>None\<close>, booleans and integers
  have no length.
\<close>

fun py_len :: "json \<Rightarrow> py_error + nat" where
  "py_len (JList xs) = Inr (length xs)"
| "py_len (JStr s) = Inr (length s)"
| "py_len (JDict d) = Inr (length (remdups (map fst d)))"
| "py_len JNull = Inl TypeError"
| "py_len (JBool b) = Inl TypeError"
| "py_len (JInt n) = Inl TypeError"

fun py_index :: "json \<Rightarrow> nat \<Rightarrow> py_error + json" where
  "py_index (JList xs) i = (if i < length xs then Inr (xs ! i) else Inl IndexError)"
| "py_index (JStr s) i = (if i < length s then Inr (JStr [s ! i]) else Inl IndexError)"
| "py_index (JDict d) i = Inl KeyError"
| "py_index JNull i = Inl TypeError"
| "py_index (JBool b) i = Inl TypeError"
| "py_index (JInt n) i = Inl TypeError"

text \<open>
  One iteration of the loop over the root's children: a list whose first element is a dict
  appends \<^verbatim>\<open>[size, name, len(entry) > 1]\<close>, a dict appends \<^verbatim>\<open>[size, name, False]\<close>, both
  sized with the shared set; every other child is passed over. (The source also counts
  the appended rows in a variable \<^verbatim>\<open>count\<close> that is never read.)
\<close>

fun top_level_step :: "json \<Rightarrow> json list \<Rightarrow> key set \<Rightarrow> (py_error + json list) \<times> key set" where
  "top_level_step (JList (JDict entry_meta # cs)) top_level_entries shared_inodes =
     (case get_entry_size (JList (JDict entry_meta # cs)) shared_inodes of
        (Inl e, shared') \<Rightarrow> (Inl e, shared')
      | (Inr sz, shared') \<Rightarrow>
          (Inr (top_level_entries @
                [JList [sz, dict_get_default entry_meta ''name'' (JStr ''unknown''),
                        JBool (length (JDict entry_meta # cs) > 1)]]), shared'))"
| "top_level_step (JDict entry) top_level_entries shared_inodes =
     (case get_entry_size (JDict entry) shared_inodes of
        (Inl e, shared') \<Rightarrow> (Inl e, shared')
      | (Inr sz, shared') \<Rightarrow>
          (Inr (top_level_entries @
                [JList [sz, dict_get_default entry ''name'' (JStr ''unknown''), JBool False]]),
           shared'))"
| "top_level_step entry top_level_entries shared_inodes = (Inr top_level_entries, shared_inodes)"

fun top_level_loop :: "json list \<Rightarrow> json list \<Rightarrow> key set \<Rightarrow> (py_error + json list) \<times> key set" where
  "top_level_loop [] top_level_entries shared_inodes = (Inr top_level_entries, shared_inodes)"
| "top_level_loop (entry # rest) top_level_entries shared_inodes =
     (case top_level_step entry top_level_entries shared_inodes of
        (Inl e, shared') \<Rightarrow> (Inl e, shared')
      | (Inr entries', shared') \<Rightarrow> top_level_loop rest entries' shared')"

text \<open>The five fields copied from the document, in the order the source writes them.\<close>

definition passthrough :: "dict \<Rightarrow> dict" where
  "passthrough data =
     [(''architecture'', dict_get data ''architecture''),
      (''timestamp'', dict_get data ''timestamp''),
      (''runner'', dict_get data ''runner''),
      (''total_disk_size'', dict_get data ''total_disk_size''),
      (''available_space'', dict_get data ''available_space'')]"

text \<open>
  The body guarded by \<^verbatim>\<open>isinstance(root_entry, list) and len(root_entry) > 0\<close>:
  \<open>total_size_step\<close> is the inner \<^verbatim>\<open>if isinstance(root_meta, dict)\<close>, with the fresh set of
  the default argument; then the loop with its own fresh \<^verbatim>\<open>shared_inodes\<close>.
\<close>

fun total_size_step :: "dict \<Rightarrow> json \<Rightarrow> json list \<Rightarrow> py_error + dict" where
  "total_size_step metadata (JDict root_meta) children =
     (case fst (get_entry_size (JList (JDict root_meta # children)) {}) of
        Inl e \<Rightarrow> Inl e
      | Inr total_size \<Rightarrow> Inr (metadata @ [(''total_size'', total_size)]))"
| "total_size_step metadata root_meta children = Inr metadata"

fun root_summary :: "dict \<Rightarrow> json \<Rightarrow> py_error + dict" where
  "root_summary metadata (JList (root_meta # children)) =
     (case total_size_step metadata root_meta children of
        Inl e \<Rightarrow> Inl e
      | Inr metadata' \<Rightarrow>
          (case fst (top_level_loop children [] {}) of
             Inl e \<Rightarrow> Inl e
           | Inr top_level_entries \<Rightarrow>
               Inr (metadata' @
                    [(''top_entries'', JList top_level_entries),
                     (''total_entries'', JInt (int (length (root_meta # children)) - 1))])))"
| "root_summary metadata root_entry = Inr metadata"

text \<open>
  \<open>generate_metadata\<close> maps the parsed document to the dict that \<^verbatim>\<open>json.dump\<close> writes, or
  to the exception that leaves the function. Reading and writing the files and the printed
  size comparison are not modelled.
\<close>

fun generate_metadata :: "json \<Rightarrow> py_error + dict" where
  "generate_metadata (JDict data) =
     (let metadata = passthrough data;
          ncdu_data = dict_get_default data ''data'' (JList [])
      in case py_len ncdu_data of
           Inl e \<Rightarrow> Inl e
         | Inr n \<Rightarrow>
             if n > 3 then
               (case py_index ncdu_data 3 of
                  Inl e \<Rightarrow> Inl e
                | Inr root_entry \<Rightarrow> root_summary metadata root_entry)
             else Inr metadata)"
| "generate_metadata data = Inl AttributeError"

section \<open>Notions of the specification\<close>

subsection \<open>File nodes\<close>

text \<open>
  A mapping carries the inode identifier \<open>k\<close> when its \<^verbatim>\<open>ino\<close> field holds a number, a
  boolean or a string; \<open>k\<close> is that value as Python's set compares it. It carries none when
  the field is missing or \<^verbatim>\<open>null\<close>. A list or an object under \<^verbatim>\<open>ino\<close> is neither.
\<close>

definition no_inode :: "dict \<Rightarrow> bool" where
  "no_inode d = (map_of d ''ino'' = None \<or> map_of d ''ino'' = Some JNull)"

definition inode_id :: "dict \<Rightarrow> key option" where
  "inode_id d = (if no_inode d then None else py_key (dict_get d ''ino''))"

definition unhashable_inode :: "dict \<Rightarrow> bool" where
  "unhashable_inode d = (\<not> no_inode d \<and> inode_id d = None)"

text \<open>The disk-usage field of a mapping, 0 when the mapping has none.\<close>

definition dsize_field :: "dict \<Rightarrow> json" where
  "dsize_field d = (case map_of d ''dsize'' of None \<Rightarrow> JInt 0 | Some v \<Rightarrow> v)"

definition dsize_int :: "dict \<Rightarrow> int" where
  "dsize_int d = (case dsize_field d of JInt n \<Rightarrow> n | _ \<Rightarrow> 0)"

subsection \<open>Trees\<close>

text \<open>
  The File nodes of a tree: the node itself when it is a mapping, and the File nodes of
  every element after the first of a sequence. The first element of a sequence is the
  directory's metadata record, not a File node.
\<close>

fun files :: "json \<Rightarrow> dict list" where
  "files (JDict d) = [d]"
| "files (JList []) = []"
| "files (JList (m # cs)) = concat (map files cs)"
| "files JNull = []"
| "files (JBool b) = []"
| "files (JInt n) = []"
| "files (JStr s) = []"

text \<open>Every mapping of a subtree, metadata records included.\<close>

fun mappings :: "json \<Rightarrow> dict list" where
  "mappings (JDict d) = [d]"
| "mappings (JList xs) = concat (map mappings xs)"
| "mappings JNull = []"
| "mappings (JBool b) = []"
| "mappings (JInt n) = []"
| "mappings (JStr s) = []"

definition inode_ids :: "dict list \<Rightarrow> key list" where
  "inode_ids ds = List.map_filter inode_id ds"

subsection \<open>Sums over children\<close>

text \<open>
  The result of the aggregator on each element of a list in turn, every call starting
  from the set its predecessor left; the set the last call leaves; and Python's sum
  \<^verbatim>\<open>a + r1 + r2 + ...\<close> of results, which is the first exception if there is one.
\<close>

fun child_results :: "json list \<Rightarrow> key set \<Rightarrow> (py_error + json) list" where
  "child_results [] S = []"
| "child_results (c # cs) S = fst (get_entry_size c S) # child_results cs (snd (get_entry_size c S))"

fun thread_set :: "json list \<Rightarrow> key set \<Rightarrow> key set" where
  "thread_set [] S = S"
| "thread_set (c # cs) S = thread_set cs (snd (get_entry_size c S))"

fun py_sum_from :: "int \<Rightarrow> (py_error + json) list \<Rightarrow> py_error + json" where
  "py_sum_from a [] = Inr (JInt a)"
| "py_sum_from a (Inl e # rs) = Inl e"
| "py_sum_from a (Inr r # rs) = (case py_add a r of Inl e \<Rightarrow> Inl e | Inr t \<Rightarrow> py_sum_from t rs)"

subsection \<open>Shapes\<close>

definition is_mapping :: "json \<Rightarrow> bool" where
  "is_mapping v = (case v of JDict d \<Rightarrow> True | _ \<Rightarrow> False)"

definition is_nonempty_sequence :: "json \<Rightarrow> bool" where
  "is_nonempty_sequence v = (case v of JList (x # xs) \<Rightarrow> True | _ \<Rightarrow> False)"

text \<open>
  A child the extractor recognizes: a File node (a mapping) or a Directory node (a
  sequence whose first element is a mapping).
\<close>

fun recognized :: "json \<Rightarrow> bool" where
  "recognized (JDict d) = True"
| "recognized (JList (JDict m # cs)) = True"
| "recognized v = False"

fun child_name :: "json \<Rightarrow> json" where
  "child_name (JDict d) = (case map_of d ''name'' of None \<Rightarrow> JStr ''unknown'' | Some v \<Rightarrow> v)"
| "child_name (JList (JDict m # cs)) = (case map_of m ''name'' of None \<Rightarrow> JStr ''unknown'' | Some v \<Rightarrow> v)"
| "child_name v = JNull"

fun child_has_children :: "json \<Rightarrow> bool" where
  "child_has_children (JList xs) = (length xs > 1)"
| "child_has_children v = False"

text \<open>A sequence child whose first element is a mapping, or a child that is no sequence
  with an element at all.\<close>

fun headed :: "json \<Rightarrow> bool" where
  "headed (JList (JDict m # cs)) = True"
| "headed (JList (x # cs)) = False"
| "headed v = True"

subsection \<open>Documents and summaries\<close>

text \<open>The root tree of a document: element 3 of its data array, when the array has more
  than 3 elements.\<close>

fun located_root :: "json \<Rightarrow> json option" where
  "located_root (JDict data) =
     (case map_of data ''data'' of
        Some (JList xs) \<Rightarrow> (if length xs > 3 then Some (xs ! 3) else None)
      | _ \<Rightarrow> None)"
| "located_root v = None"

definition omits_computed :: "dict \<Rightarrow> bool" where
  "omits_computed out =
     (map_of out ''total_size'' = None \<and> map_of out ''top_entries'' = None \<and>
      map_of out ''total_entries'' = None)"

text \<open>The size of a row \<^verbatim>\<open>[size, name, has_children]\<close> of \<^verbatim>\<open>top_entries\<close>.\<close>

fun entry_size :: "json \<Rightarrow> py_error + json" where
  "entry_size (JList (sz # rest)) = Inr sz"
| "entry_size v = Inl IndexError"

definition top_entries_sum :: "dict \<Rightarrow> py_error + json" where
  "top_entries_sum out =
     (case map_of out ''top_entries'' of
        Some (JList rows) \<Rightarrow> py_sum_from 0 (map entry_size rows)
      | _ \<Rightarrow> Inl KeyError)"

subsection \<open>Rows and typing\<close>

text \<open>The row of \<^verbatim>\<open>top_entries\<close> for a recognized child \<open>c\<close> of size \<open>sz\<close>.\<close>

definition top_entry :: "json \<Rightarrow> json \<Rightarrow> json" where
  "top_entry sz c = JList [sz, child_name c, JBool (child_has_children c)]"

text \<open>
  File nodes typed as the data model has them: the \<^verbatim>\<open>ino\<close> field is missing, \<^verbatim>\<open>null\<close> or an
  identifier, and the disk-usage field is an integer (or missing, which counts as 0);
  and File nodes whose disk-usage fields are nonnegative integers.
\<close>

definition well_typed :: "dict list \<Rightarrow> bool" where
  "well_typed ds = (\<forall>d\<in>set ds. \<not> unhashable_inode d \<and> dsize_field d = JInt (dsize_int d))"

definition nonneg_dsize :: "dict list \<Rightarrow> bool" where
  "nonneg_dsize ds = (\<forall>d\<in>set ds. \<exists>x. 0 \<le> x \<and> dsize_field d = JInt x)"

text \<open>
  Two outcomes of the aggregator, the first from the smaller set: both raise the same
  exception, or both return integers, the second not above the first, and the sets left
  are still ordered.
\<close>

definition antitone_rel :: "(py_error + json) \<times> key set \<Rightarrow> (py_error + json) \<times> key set \<Rightarrow> bool" where
  "antitone_rel rs rt =
     ((\<exists>e. fst rs = Inl e \<and> fst rt = Inl e) \<or>
      (\<exists>a b. fst rs = Inr (JInt b) \<and> fst rt = Inr (JInt a) \<and> a \<le> b \<and> snd rs \<subseteq> snd rt))"

section \<open>Fixtures\<close>

text \<open>The entries of \<^verbatim>\<open>test_generate_metadata.py\<close>, and documents built from them.\<close>

definition file_entry :: dict where
  "file_entry =
     [(''name'', JStr ''file.txt''), (''asize'', JInt 1000), (''dsize'', JInt 4096),
      (''ino'', JInt 123)]"

definition nameless :: dict where
  "nameless = [(''asize'', JInt 1000), (''dsize'', JInt 512)]"

definition testdir :: json where
  "testdir = JDict [(''name'', JStr ''testdir''), (''asize'', JInt 4096), (''dsize'', JInt 4096)]"

definition file1 :: json where
  "file1 = JDict [(''name'', JStr ''file1.txt''), (''asize'', JInt 1000), (''dsize'', JInt 4096),
                  (''ino'', JInt 1)]"

definition file2 :: json where
  "file2 = JDict [(''name'', JStr ''file2.txt''), (''asize'', JInt 2000), (''dsize'', JInt 4096),
                  (''ino'', JInt 2)]"

definition file1_link :: json where
  "file1_link = JDict [(''name'', JStr ''file1_link.txt''), (''asize'', JInt 1000),
                       (''dsize'', JInt 4096), (''ino'', JInt 1)]"

definition root_meta :: json where
  "root_meta = JDict [(''name'', JStr ''/'')]"

definition dir_b :: json where
  "dir_b = JDict [(''name'', JStr ''b'')]"

definition shared_inode_doc :: json where
  "shared_inode_doc =
     JDict [(''data'', JList [JInt 1, JInt 2, JNull,
        JList [root_meta, JList [testdir, file1], JList [dir_b, file1_link]]])]"

definition shared_inode_summary :: dict where
  "shared_inode_summary =
     [(''architecture'', JNull), (''timestamp'', JNull), (''runner'', JNull),
      (''total_disk_size'', JNull), (''available_space'', JNull),
      (''total_size'', JInt 4096),
      (''top_entries'', JList [JList [JInt 4096, JStr ''testdir'', JBool True],
                               JList [JInt 0, JStr ''b'', JBool True]]),
      (''total_entries'', JInt 2)]"

definition mixed_children :: "json list" where
  "mixed_children = [JList [testdir, file1], JInt 5, file2, JList [JInt 0, file1], JList [dir_b]]"

definition mixed_data :: dict where
  "mixed_data = [(''runner'', JStr ''ubuntu''),
     (''data'', JList [JInt 1, JInt 2, JNull, JList (root_meta # mixed_children)])]"

definition mixed_doc :: json where
  "mixed_doc = JDict mixed_data"

definition mixed_summary :: dict where
  "mixed_summary =
     [(''architecture'', JNull), (''timestamp'', JNull), (''runner'', JStr ''ubuntu''),
      (''total_disk_size'', JNull), (''available_space'', JNull),
      (''total_size'', JInt 8192),
      (''top_entries'', JList [JList [JInt 4096, JStr ''testdir'', JBool True],
                               JList [JInt 4096, JStr ''file2.txt'', JBool False],
                               JList [JInt 0, JStr ''b'', JBool False]]),
      (''total_entries'', JInt 5)]"

definition scalar_root_data :: dict where
  "scalar_root_data = [(''data'', JList [JInt 1, JInt 2, JNull, JInt 7])]"

definition scalar_root_doc :: json where
  "scalar_root_doc = JDict scalar_root_data"

definition headless_root_doc :: json where
  "headless_root_doc = JDict [(''data'', JList [JInt 1, JInt 2, JNull, JList [JInt 7, file1]])]"

definition headless_root_summary :: dict where
  "headless_root_summary =
     [(''architecture'', JNull), (''timestamp'', JNull), (''runner'', JNull),
      (''total_disk_size'', JNull), (''available_space'', JNull),
      (''top_entries'', JList [JList [JInt 4096, JStr ''file1.txt'', JBool False]]),
      (''total_entries'', JInt 1)]"




definition hardlink_dir :: json where
  "hardlink_dir = JList [testdir, file1, file1_link, file2]"

definition nested_dir :: json where
  "nested_dir = JList [root_meta, JList [testdir, file1], file2]"

section \<open>The aggregator on File nodes\<close>

lemma map_of_filter_other:
  "k \<noteq> a \<Longrightarrow> map_of (filter (\<lambda>kv. fst kv \<noteq> a) d) k = map_of d k"
  by (induction d) auto

text \<open>The result depends on the mapping through its \<^verbatim>\<open>ino\<close> and \<^verbatim>\<open>dsize\<close> fields only.\<close>

lemma get_entry_size_fields:
  assumes "map_of d ''ino'' = map_of d' ''ino''" and "map_of d ''dsize'' = map_of d' ''dsize''"
  shows "get_entry_size (JDict d) S = get_entry_size (JDict d') S"
  unfolding get_entry_size.simps dict_get_def dict_get_default_def assms ..

lemma get_entry_size_no_inode:
  "no_inode d \<Longrightarrow> get_entry_size (JDict d) S = (Inr (dsize_field d), S)"
  by (auto simp: no_inode_def dict_get_def dict_get_default_def dsize_field_def)

lemma get_entry_size_seen:
  "inode_id d = Some k \<Longrightarrow> k \<in> S \<Longrightarrow> get_entry_size (JDict d) S = (Inr (JInt 0), S)"
  by (auto simp: inode_id_def no_inode_def dict_get_def split: if_splits option.splits)

lemma get_entry_size_unseen:
  "inode_id d = Some k \<Longrightarrow> k \<notin> S \<Longrightarrow>
     get_entry_size (JDict d) S = (Inr (dsize_field d), insert k S)"
  by (auto simp: inode_id_def no_inode_def dict_get_def dict_get_default_def dsize_field_def
      split: if_splits option.splits)

text \<open>A list or an object under \<^verbatim>\<open>ino\<close> makes the membership test raise.\<close>

lemma get_entry_size_unhashable:
  "unhashable_inode d \<Longrightarrow> get_entry_size (JDict d) S = (Inl TypeError, S)"
  by (auto simp: unhashable_inode_def inode_id_def no_inode_def dict_get_def
      split: if_splits option.splits)

text \<open>
  C1. For a mapping \<open>d\<close> and a dedup set \<open>S\<close>: when \<open>d\<close> carries an inode identifier that is in
  \<open>S\<close>, the aggregator returns 0 and leaves \<open>S\<close> as it is; when it carries one that is not in
  \<open>S\<close>, the identifier is inserted and the disk-usage field is returned; when it carries
  none, the disk-usage field is returned and \<open>S\<close> is unchanged. The disk-usage field is 0
  when the mapping has none. Setting \<^verbatim>\<open>asize\<close> to any value, or removing it, changes
  neither the result nor the set.
\<close>

theorem file_node_aggregate:
  "(inode_id d = Some k \<and> k \<in> S \<longrightarrow> get_entry_size (JDict d) S = (Inr (JInt 0), S)) \<and>
   (inode_id d = Some k \<and> k \<notin> S \<longrightarrow>
      get_entry_size (JDict d) S = (Inr (dsize_field d), insert k S)) \<and>
   (no_inode d \<longrightarrow> get_entry_size (JDict d) S = (Inr (dsize_field d), S)) \<and>
   (map_of d ''dsize'' = None \<longrightarrow> dsize_field d = JInt 0) \<and>
   (map_of d ''dsize'' = Some v \<longrightarrow> dsize_field d = v) \<and>
   get_entry_size (JDict ((''asize'', a) # d)) S = get_entry_size (JDict d) S \<and>
   get_entry_size (JDict (filter (\<lambda>kv. fst kv \<noteq> ''asize'') d)) S = get_entry_size (JDict d) S"
proof -
  have asize_set: "get_entry_size (JDict ((''asize'', a) # d)) S = get_entry_size (JDict d) S"
    by (rule get_entry_size_fields) simp_all
  have asize_del:
    "get_entry_size (JDict (filter (\<lambda>kv. fst kv \<noteq> ''asize'') d)) S = get_entry_size (JDict d) S"
    by (rule get_entry_size_fields) (simp_all add: map_of_filter_other)
  have dflt: "map_of d ''dsize'' = None \<longrightarrow> dsize_field d = JInt 0"
    and fld: "map_of d ''dsize'' = Some v \<longrightarrow> dsize_field d = v"
    by (simp_all add: dsize_field_def)
  show ?thesis
    using asize_set asize_del dflt fld
      get_entry_size_seen [of d k S] get_entry_size_unseen [of d k S]
      get_entry_size_no_inode [of d S]
    by blast
qed

theorem file_node_aggregate_witness:
  "get_entry_size (JDict file_entry) {KNum 123} = (Inr (JInt 0), {KNum 123}) \<and>
   get_entry_size (JDict file_entry) {} = (Inr (JInt 4096), {KNum 123}) \<and>
   get_entry_size (JDict nameless) {KNum 123} = (Inr (JInt 512), {KNum 123})"
proof -
  have id: "inode_id file_entry = Some (KNum 123)"
    by (simp add: file_entry_def inode_id_def no_inode_def dict_get_def)
  have ds: "dsize_field file_entry = JInt 4096"
    by (simp add: file_entry_def dsize_field_def)
  have no: "no_inode nameless"
    by (simp add: nameless_def no_inode_def)
  have ds0: "dsize_field nameless = JInt 512"
    by (simp add: nameless_def dsize_field_def)
  show ?thesis
    using file_node_aggregate [of file_entry "KNum 123" "{KNum 123}"]
      file_node_aggregate [of file_entry "KNum 123" "{}"]
      file_node_aggregate [of nameless _ "{KNum 123}"]
      id ds no ds0
    by simp
qed

section \<open>The aggregator on Directory nodes\<close>

lemma sum_children_result:
  "fst (sum_children cs a S) = py_sum_from a (child_results cs S)"
proof (induction cs arbitrary: a S)
  case Nil
  show ?case by simp
next
  case (Cons c cs)
  obtain r S' where c: "get_entry_size c S = (r, S')" by (cases "get_entry_size c S")
  show ?case
  proof (cases r)
    case (Inl e)
    with c show ?thesis by simp
  next
    case (Inr v)
    with c Cons show ?thesis by (cases "py_add a v") simp_all
  qed
qed

lemma sum_children_set:
  "fst (sum_children cs a S) = Inr v \<Longrightarrow> snd (sum_children cs a S) = thread_set cs S"
proof (induction cs arbitrary: a S)
  case Nil
  show ?case by simp
next
  case (Cons c cs)
  obtain r S' where c: "get_entry_size c S = (r, S')" by (cases "get_entry_size c S")
  show ?case
  proof (cases r)
    case (Inl e)
    with c Cons.prems show ?thesis by simp
  next
    case (Inr w)
    with c Cons show ?thesis by (cases "py_add a w") simp_all
  qed
qed

lemma py_sum_from_ints:
  "py_sum_from a (map (\<lambda>x. Inr (JInt x)) xs) = Inr (JInt (a + sum_list xs))"
  by (induction xs arbitrary: a) (simp_all add: add.assoc)

text \<open>
  C2. For a sequence \<open>m # cs\<close>, the aggregator returns Python's sum, from 0, of the
  aggregator's results on the elements \<open>cs\<close> after the first, the dedup set threaded
  through them in order; when these results are the integers \<open>xs\<close>, it returns their sum
  and leaves the set the last child left. The first element \<open>m\<close> is not read: any other
  \<open>m'\<close> in its place gives the same result and set. A sequence of the metadata element
  alone aggregates to 0.
\<close>

theorem directory_node_aggregate:
  "fst (get_entry_size (JList (m # cs)) S) = py_sum_from 0 (child_results cs S) \<and>
   (child_results cs S = map (\<lambda>x. Inr (JInt x)) xs \<longrightarrow>
      get_entry_size (JList (m # cs)) S = (Inr (JInt (sum_list xs)), thread_set cs S)) \<and>
   get_entry_size (JList (m # cs)) S = get_entry_size (JList (m' # cs)) S \<and>
   get_entry_size (JList [m]) S = (Inr (JInt 0), S)"
proof -
  have res: "fst (get_entry_size (JList (m # cs)) S) = py_sum_from 0 (child_results cs S)"
    by (simp add: sum_children_result)
  have ints: "get_entry_size (JList (m # cs)) S = (Inr (JInt (sum_list xs)), thread_set cs S)"
    if "child_results cs S = map (\<lambda>x. Inr (JInt x)) xs"
  proof -
    from that have "fst (sum_children cs 0 S) = Inr (JInt (sum_list xs))"
      by (simp add: sum_children_result py_sum_from_ints)
    then show ?thesis
      using sum_children_set [of cs 0 S] by (simp add: prod_eq_iff)
  qed
  show ?thesis using res ints by simp
qed

theorem directory_node_aggregate_witness:
  "get_entry_size (JList [testdir, file1, file2]) {} = (Inr (JInt 8192), {KNum 1, KNum 2}) \<and>
   get_entry_size (JList [testdir]) {} = (Inr (JInt 0), {})"
proof -
  have cr: "child_results [file1, file2] {} = map (\<lambda>x. Inr (JInt x)) [4096, 4096]"
    by (simp add: file1_def file2_def dict_get_def dict_get_default_def)
  have ts: "thread_set [file1, file2] {} = {KNum 1, KNum 2}"
    by (auto simp add: file1_def file2_def dict_get_def dict_get_default_def)
  show ?thesis
    using directory_node_aggregate [of testdir "[file1, file2]" "{}" "[4096, 4096]" testdir]
      directory_node_aggregate [of testdir "[]" "{}" "[]" testdir] cr ts
    by simp
qed

section \<open>The extractor\<close>

lemma located_root_iff:
  "located_root doc = Some root \<longleftrightarrow>
     (\<exists>data xs. doc = JDict data \<and> map_of data ''data'' = Some (JList xs) \<and>
        3 < length xs \<and> root = xs ! 3)"
  by (cases doc) (auto split: option.splits json.splits if_splits)

lemma generate_metadata_located:
  assumes "located_root doc = Some root"
  obtains data where "doc = JDict data" "generate_metadata doc = root_summary (passthrough data) root"
proof -
  from assms obtain data xs where d: "doc = JDict data" "map_of data ''data'' = Some (JList xs)"
    "3 < length xs" "root = xs ! 3"
    unfolding located_root_iff by blast
  then have "generate_metadata doc = root_summary (passthrough data) root"
    by (simp add: dict_get_default_def)
  with d(1) that show ?thesis by blast
qed

lemma omits_computed_passthrough: "omits_computed (passthrough data)"
  by (simp add: omits_computed_def passthrough_def)

lemma top_level_step_recognized:
  "recognized c \<Longrightarrow> top_level_step c rows S =
     (case get_entry_size c S of
        (Inl e, S') \<Rightarrow> (Inl e, S')
      | (Inr sz, S') \<Rightarrow> (Inr (rows @ [top_entry sz c]), S'))"
  by (cases c rule: recognized.cases)
     (simp_all add: top_entry_def dict_get_default_def split: prod.splits sum.splits)

lemma top_level_step_unrecognized:
  "\<not> recognized c \<Longrightarrow> top_level_step c rows S = (Inr rows, S)"
  by (cases c rule: recognized.cases) simp_all

lemma top_level_loop_rows:
  "top_level_loop cs rows S = (Inr rows', S') \<Longrightarrow>
     \<exists>sizes. map Inr sizes = child_results (filter recognized cs) S \<and>
       rows' = rows @ map2 top_entry sizes (filter recognized cs)"
proof (induction cs arbitrary: rows S)
  case Nil
  then show ?case by simp
next
  case (Cons c cs)
  show ?case
  proof (cases "recognized c")
    case False
    with Cons show ?thesis by (simp add: top_level_step_unrecognized)
  next
    case True
    obtain r S1 where c: "get_entry_size c S = (r, S1)" by (cases "get_entry_size c S")
    with True Cons.prems obtain sz where r: "r = Inr sz"
      by (cases r) (simp_all add: top_level_step_recognized)
    with True c Cons.prems have "top_level_loop cs (rows @ [top_entry sz c]) S1 = (Inr rows', S')"
      by (simp add: top_level_step_recognized)
    from Cons.IH [OF this] obtain sizes where
      "map Inr sizes = child_results (filter recognized cs) S1"
      "rows' = (rows @ [top_entry sz c]) @ map2 top_entry sizes (filter recognized cs)"
      by blast
    with True c r have "map Inr (sz # sizes) = child_results (filter recognized (c # cs)) S \<and>
       rows' = rows @ map2 top_entry (sz # sizes) (filter recognized (c # cs))"
      by simp
    then show ?thesis by blast
  qed
qed

lemma length_child_results: "length (child_results cs S) = length cs"
  by (induction cs arbitrary: S) simp_all

lemma map_entry_size_rows:
  "length sizes = length cs \<Longrightarrow> map entry_size (map2 top_entry sizes cs) = map Inr sizes"
  by (induction sizes cs rule: list_induct2) (simp_all add: top_entry_def)

lemma child_results_headed:
  "\<forall>c\<in>set cs. headed c \<Longrightarrow>
     py_sum_from a (child_results (filter recognized cs) S) = py_sum_from a (child_results cs S)"
proof (induction cs arbitrary: a S)
  case Nil
  show ?case by simp
next
  case (Cons c cs)
  show ?case
  proof (cases "recognized c")
    case True
    with Cons show ?thesis
      by (cases "fst (get_entry_size c S)") (simp_all split: sum.splits)
  next
    case False
    with Cons.prems have "get_entry_size c S = (Inr (JInt 0), S)"
      by (cases c rule: headed.cases) simp_all
    with False Cons show ?thesis by simp
  qed
qed

lemma root_summary_fields:
  assumes "root_summary (passthrough data) (JList (m # cs)) = Inr out"
  obtains rows where "fst (top_level_loop cs [] {}) = Inr rows"
    "map_of out ''top_entries'' = Some (JList rows)"
    "map_of out ''total_entries'' = Some (JInt (int (length (m # cs)) - 1))"
    "\<not> is_mapping m \<Longrightarrow> map_of out ''total_size'' = None"
    "is_mapping m \<Longrightarrow> \<exists>total. fst (get_entry_size (JList (m # cs)) {}) = Inr total \<and>
        map_of out ''total_size'' = Some total"
proof -
  from assms obtain md rows where md: "total_size_step (passthrough data) m cs = Inr md"
    and rows: "fst (top_level_loop cs [] {}) = Inr rows"
    and out: "out = md @ [(''top_entries'', JList rows),
                          (''total_entries'', JInt (int (length (m # cs)) - 1))]"
    by (auto split: sum.splits)
  have ts: "map_of md ''top_entries'' = None \<and> map_of md ''total_entries'' = None \<and>
    (\<not> is_mapping m \<longrightarrow> map_of md ''total_size'' = None) \<and>
    (is_mapping m \<longrightarrow> (\<exists>total. fst (get_entry_size (JList (m # cs)) {}) = Inr total \<and>
        map_of md ''total_size'' = Some total))"
    using md by (cases m) (auto simp: passthrough_def is_mapping_def split: sum.splits)
  show ?thesis
    by (rule that [of rows]) (use rows out ts in \<open>auto simp: map_add_def\<close>)
qed

subsection \<open>The fixtures evaluated\<close>

lemmas fixture_defs = root_meta_def dir_b_def testdir_def file1_def file2_def file1_link_def
  mixed_children_def

lemma shared_inode_run: "generate_metadata shared_inode_doc = Inr shared_inode_summary"
  by (simp add: shared_inode_doc_def shared_inode_summary_def fixture_defs passthrough_def
      dict_get_def dict_get_default_def)

lemma mixed_run: "generate_metadata mixed_doc = Inr mixed_summary"
  by (simp add: mixed_doc_def mixed_data_def mixed_summary_def fixture_defs passthrough_def
      dict_get_def dict_get_default_def)

lemma mixed_located: "located_root mixed_doc = Some (JList (root_meta # mixed_children))"
  by (simp add: mixed_doc_def mixed_data_def)

lemma scalar_root_run: "generate_metadata scalar_root_doc = Inr (passthrough scalar_root_data)"
  by (simp add: scalar_root_doc_def scalar_root_data_def passthrough_def dict_get_def dict_get_default_def)

lemma headless_root_run: "generate_metadata headless_root_doc = Inr headless_root_summary"
  by (simp add: headless_root_doc_def headless_root_summary_def fixture_defs passthrough_def
      dict_get_def dict_get_default_def)

subsection \<open>Unrecognized shapes\<close>

lemma shapeless_not_recognized:
  "\<not> is_mapping v \<Longrightarrow> \<not> is_nonempty_sequence v \<Longrightarrow> \<not> recognized v"
  by (cases v rule: recognized.cases) (simp_all add: is_mapping_def is_nonempty_sequence_def)

lemma get_entry_size_shapeless:
  assumes "\<not> is_mapping v" and "\<not> is_nonempty_sequence v"
  shows "get_entry_size v S = (Inr (JInt 0), S)"
proof (cases v)
  case (JList xs)
  with assms show ?thesis by (cases xs) (simp_all add: is_nonempty_sequence_def)
qed (use assms in \<open>simp_all add: is_mapping_def\<close>)

lemma top_level_loop_shapeless:
  "top_level_loop (filter (\<lambda>c. is_mapping c \<or> is_nonempty_sequence c) cs) rows S =
     top_level_loop cs rows S"
proof (induction cs arbitrary: rows S)
  case Nil
  show ?case by simp
next
  case (Cons c cs)
  show ?case
  proof (cases "is_mapping c \<or> is_nonempty_sequence c")
    case True
    with Cons show ?thesis by (simp split: prod.splits sum.splits)
  next
    case False
    then have "top_level_step c rows S = (Inr rows, S)"
      by (simp add: top_level_step_unrecognized shapeless_not_recognized)
    with False Cons show ?thesis by simp
  qed
qed

text \<open>
  C6. On a value \<open>v\<close> that is neither a mapping nor a sequence with at least one element,
  the aggregator returns 0, raises nothing and leaves the dedup set as it is, and the
  extractor's loop appends no row for it and leaves \<^verbatim>\<open>shared_inodes\<close> as it is. So the loop
  over the children \<open>cs\<close> is the loop over \<open>cs\<close> without such values, and the \<^verbatim>\<open>top_entries\<close>
  of a summary are the rows of the root's children without them.
\<close>

theorem unrecognized_shape_tolerated:
  "(\<not> is_mapping v \<and> \<not> is_nonempty_sequence v \<longrightarrow>
      get_entry_size v S = (Inr (JInt 0), S) \<and> top_level_step v rows S = (Inr rows, S)) \<and>
   top_level_loop cs rows S =
     top_level_loop (filter (\<lambda>c. is_mapping c \<or> is_nonempty_sequence c) cs) rows S \<and>
   (located_root doc = Some (JList (m # cs)) \<and> generate_metadata doc = Inr out \<longrightarrow>
      (\<exists>rows'. map_of out ''top_entries'' = Some (JList rows') \<and>
         fst (top_level_loop (filter (\<lambda>c. is_mapping c \<or> is_nonempty_sequence c) cs) [] {}) =
           Inr rows'))"
proof -
  have a: "get_entry_size v S = (Inr (JInt 0), S) \<and> top_level_step v rows S = (Inr rows, S)"
    if "\<not> is_mapping v \<and> \<not> is_nonempty_sequence v"
    using that
    by (simp add: get_entry_size_shapeless top_level_step_unrecognized shapeless_not_recognized)
  have c: "\<exists>rows'. map_of out ''top_entries'' = Some (JList rows') \<and>
         fst (top_level_loop (filter (\<lambda>c. is_mapping c \<or> is_nonempty_sequence c) cs) [] {}) =
           Inr rows'"
    if "located_root doc = Some (JList (m # cs)) \<and> generate_metadata doc = Inr out"
  proof -
    from that obtain data where "root_summary (passthrough data) (JList (m # cs)) = Inr out"
      by (auto elim: generate_metadata_located)
    then show ?thesis
      by (rule root_summary_fields) (simp add: top_level_loop_shapeless)
  qed
  show ?thesis using a c by (simp add: top_level_loop_shapeless)
qed

theorem unrecognized_shape_tolerated_witness:
  "get_entry_size (JInt 5) {KNum 1} = (Inr (JInt 0), {KNum 1}) \<and>
   top_level_step (JInt 5) [] {KNum 1} = (Inr [], {KNum 1}) \<and>
   (\<exists>rows'. map_of mixed_summary ''top_entries'' = Some (JList rows') \<and>
      fst (top_level_loop
             (filter (\<lambda>c. is_mapping c \<or> is_nonempty_sequence c) mixed_children) [] {}) =
        Inr rows')"
proof -
  have s: "\<not> is_mapping (JInt 5) \<and> \<not> is_nonempty_sequence (JInt 5)"
    by (simp add: is_mapping_def is_nonempty_sequence_def)
  show ?thesis
    using unrecognized_shape_tolerated [where v = "JInt 5" and S = "{KNum 1}" and rows = "[]"
        and cs = mixed_children and doc = mixed_doc and m = root_meta and out = mixed_summary]
      s mixed_located mixed_run
    by blast
qed

subsection \<open>The count of entries\<close>

text \<open>
  C7. When the root is located as the sequence \<open>m # cs\<close> and a summary is written,
  \<^verbatim>\<open>total_entries\<close> is the length of the sequence minus one, whatever the children are. The
  document \<open>mixed_doc\<close> has two children that are not recognized: its \<^verbatim>\<open>total_entries\<close> is
  5 and its \<^verbatim>\<open>top_entries\<close> has 3 rows.
\<close>

theorem total_entries_counts_children:
  "(located_root doc = Some (JList (m # cs)) \<and> generate_metadata doc = Inr out \<longrightarrow>
      map_of out ''total_entries'' = Some (JInt (int (length (m # cs)) - 1))) \<and>
   generate_metadata mixed_doc = Inr mixed_summary \<and>
   map_of mixed_summary ''total_entries'' = Some (JInt 5) \<and>
   (\<exists>rows. map_of mixed_summary ''top_entries'' = Some (JList rows) \<and> length rows = 3)"
proof -
  have "map_of out ''total_entries'' = Some (JInt (int (length (m # cs)) - 1))"
    if "located_root doc = Some (JList (m # cs)) \<and> generate_metadata doc = Inr out"
  proof -
    from that obtain data where "root_summary (passthrough data) (JList (m # cs)) = Inr out"
      by (auto elim: generate_metadata_located)
    then show ?thesis
      by (rule root_summary_fields)
  qed
  moreover have "map_of mixed_summary ''total_entries'' = Some (JInt 5)"
    "\<exists>rows. map_of mixed_summary ''top_entries'' = Some (JList rows) \<and> length rows = 3"
    by (simp_all add: mixed_summary_def)
  ultimately show ?thesis using mixed_run by blast
qed

theorem total_entries_counts_children_witness:
  "map_of mixed_summary ''total_entries'' =
     Some (JInt (int (length (root_meta # mixed_children)) - 1))"
  using total_entries_counts_children [where doc = mixed_doc and m = root_meta
      and cs = mixed_children and out = mixed_summary]
    mixed_located mixed_run
  by blast

subsection \<open>The rows of \<^verbatim>\<open>top_entries\<close>\<close>



subsection \<open>The two passes\<close>

lemma top_entries_sum_total:
  assumes loop: "fst (top_level_loop cs [] {}) = Inr rows"
    and headed: "\<forall>c\<in>set cs. headed c"
  shows "py_sum_from 0 (map entry_size rows) = fst (get_entry_size (JList (m # cs)) {})"
proof -
  from loop obtain S' where "top_level_loop cs [] {} = (Inr rows, S')"
    by (cases "top_level_loop cs [] {}") simp
  from top_level_loop_rows [OF this] obtain sizes where
    sizes: "map Inr sizes = child_results (filter recognized cs) {}"
    and rows: "rows = map2 top_entry sizes (filter recognized cs)"
    by auto
  from sizes have "length sizes = length (filter recognized cs)"
    by (metis length_child_results length_map)
  then have "map entry_size (map2 top_entry sizes (filter recognized cs)) = map Inr sizes"
    by (rule map_entry_size_rows)
  with sizes rows have "map entry_size rows = child_results (filter recognized cs) {}"
    by simp
  then show ?thesis
    using headed by (simp add: child_results_headed sum_children_result)
qed

lemma two_passes:
  assumes "located_root doc = Some (JList (JDict md # cs))" and "generate_metadata doc = Inr out"
  obtains total sizes rows where
    "fst (get_entry_size (JList (JDict md # cs)) {}) = Inr total"
    "map_of out ''total_size'' = Some total"
    "map Inr sizes = child_results (filter recognized cs) {}"
    "rows = map2 top_entry sizes (filter recognized cs)"
    "fst (top_level_loop cs [] {}) = Inr rows"
    "map_of out ''top_entries'' = Some (JList rows)"
proof -
  from assms obtain data where "root_summary (passthrough data) (JList (JDict md # cs)) = Inr out"
    by (auto elim: generate_metadata_located)
  then obtain rows total where rows: "fst (top_level_loop cs [] {}) = Inr rows"
    "map_of out ''top_entries'' = Some (JList rows)"
    and total: "fst (get_entry_size (JList (JDict md # cs)) {}) = Inr total"
    "map_of out ''total_size'' = Some total"
    by (rule root_summary_fields) (auto simp: is_mapping_def)
  from rows(1) obtain S' where "top_level_loop cs [] {} = (Inr rows, S')"
    by (cases "top_level_loop cs [] {}") simp
  from top_level_loop_rows [OF this] obtain sizes where
    "map Inr sizes = child_results (filter recognized cs) {}"
    "rows = map2 top_entry sizes (filter recognized cs)"
    by auto
  with rows total that show ?thesis by blast
qed

text \<open>
  When every child of the root that is a sequence with an element begins with a mapping,
  both passes walk the same files in the same order from an empty set, and the sizes of
  \<^verbatim>\<open>top_entries\<close> sum to \<^verbatim>\<open>total_size\<close>: a shared inode is then dropped at the same place in
  both. The document of two such directories that each hold a file of inode 1 has sizes
  4096 and 0, and \<^verbatim>\<open>total_size\<close> 4096.
\<close>

lemma top_entries_sum_equals_total:
  assumes "located_root doc = Some (JList (JDict md # cs))" and "\<forall>c\<in>set cs. headed c"
    and "generate_metadata doc = Inr out"
  shows "\<exists>total. map_of out ''total_size'' = Some total \<and> top_entries_sum out = Inr total"
proof -
  from assms(1,3) obtain total sizes rows where
    t: "fst (get_entry_size (JList (JDict md # cs)) {}) = Inr total"
      "map_of out ''total_size'' = Some total"
    and r: "fst (top_level_loop cs [] {}) = Inr rows" "map_of out ''top_entries'' = Some (JList rows)"
    by (rule two_passes)
  have "top_entries_sum out = Inr total"
    using top_entries_sum_total [OF r(1) assms(2), of "JDict md"] r(2) t(1)
    by (simp add: top_entries_sum_def)
  with t(2) show ?thesis by blast
qed

lemma shared_inode_sums_equal:
  "generate_metadata shared_inode_doc = Inr shared_inode_summary \<and>
   map_of shared_inode_summary ''total_size'' = Some (JInt 4096) \<and>
   top_entries_sum shared_inode_summary = Inr (JInt 4096)"
  using shared_inode_run
  by (simp add: shared_inode_summary_def top_entries_sum_def)








subsection \<open>Presence of the computed fields\<close>

text \<open>
  C4 (as amended). The five copied fields hold none of \<^verbatim>\<open>total_size\<close>, \<^verbatim>\<open>top_entries\<close>,
  \<^verbatim>\<open>total_entries\<close>. For a document whose data array is \<open>xs\<close> (the empty array when the
  document has no \<^verbatim>\<open>data\<close>): with 3 or fewer elements the summary is the five copied fields
  only; with more than 3 elements and an element 3 that is not a sequence with at least
  one element, again the five copied fields only; with more than 3 elements and a
  sequence \<open>m # cs\<close> as element 3, a summary that is written has \<^verbatim>\<open>top_entries\<close> and
  \<^verbatim>\<open>total_entries\<close>, and has \<^verbatim>\<open>total_size\<close> exactly when \<open>m\<close> is a mapping.
\<close>

theorem computed_fields_presence:
  "omits_computed (passthrough data) \<and>
   (dict_get_default data ''data'' (JList []) = JList xs \<longrightarrow>
      (length xs \<le> 3 \<longrightarrow> generate_metadata (JDict data) = Inr (passthrough data)) \<and>
      (3 < length xs \<and> \<not> is_nonempty_sequence (xs ! 3) \<longrightarrow>
         generate_metadata (JDict data) = Inr (passthrough data)) \<and>
      (3 < length xs \<and> xs ! 3 = JList (m # cs) \<and> generate_metadata (JDict data) = Inr out \<longrightarrow>
         map_of out ''top_entries'' \<noteq> None \<and> map_of out ''total_entries'' \<noteq> None \<and>
         (map_of out ''total_size'' \<noteq> None) = is_mapping m))"
proof -
  have short: "generate_metadata (JDict data) = Inr (passthrough data)"
    if "dict_get_default data ''data'' (JList []) = JList xs" "length xs \<le> 3"
    using that by simp
  have shapeless: "generate_metadata (JDict data) = Inr (passthrough data)"
    if "dict_get_default data ''data'' (JList []) = JList xs" "3 < length xs"
      "\<not> is_nonempty_sequence (xs ! 3)"
  proof -
    from that(3) have "root_summary (passthrough data) (xs ! 3) = Inr (passthrough data)"
      by (cases "(passthrough data, xs ! 3)" rule: root_summary.cases)
         (simp_all add: is_nonempty_sequence_def)
    with that(1,2) show ?thesis by simp
  qed
  have seq: "map_of out ''top_entries'' \<noteq> None \<and> map_of out ''total_entries'' \<noteq> None \<and>
         (map_of out ''total_size'' \<noteq> None) = is_mapping m"
    if "dict_get_default data ''data'' (JList []) = JList xs" "3 < length xs"
      "xs ! 3 = JList (m # cs)" "generate_metadata (JDict data) = Inr out"
  proof -
    from that have "root_summary (passthrough data) (JList (m # cs)) = Inr out"
      by simp
    then show ?thesis
      by (rule root_summary_fields) (cases "is_mapping m", auto)
  qed
  show ?thesis
    using short shapeless seq omits_computed_passthrough by blast
qed

theorem computed_fields_presence_witness:
  "generate_metadata (JDict []) = Inr (passthrough []) \<and>
   generate_metadata (JDict scalar_root_data) = Inr (passthrough scalar_root_data) \<and>
   map_of mixed_summary ''top_entries'' \<noteq> None \<and>
   map_of mixed_summary ''total_entries'' \<noteq> None \<and>
   (map_of mixed_summary ''total_size'' \<noteq> None) = is_mapping root_meta"
proof -
  have short: "dict_get_default [] ''data'' (JList []) = JList []"
    by (simp add: dict_get_default_def)
  have scalar: "dict_get_default scalar_root_data ''data'' (JList []) =
      JList [JInt 1, JInt 2, JNull, JInt 7]"
    "\<not> is_nonempty_sequence ([JInt 1, JInt 2, JNull, JInt 7] ! 3)"
    by (simp_all add: scalar_root_data_def dict_get_default_def is_nonempty_sequence_def)
  have mixed: "dict_get_default mixed_data ''data'' (JList []) =
      JList [JInt 1, JInt 2, JNull, JList (root_meta # mixed_children)]"
    "[JInt 1, JInt 2, JNull, JList (root_meta # mixed_children)] ! 3 =
      JList (root_meta # mixed_children)"
    by (simp_all add: mixed_data_def dict_get_default_def)
  have run: "generate_metadata (JDict mixed_data) = Inr mixed_summary"
    using mixed_run by (simp add: mixed_doc_def)
  show ?thesis
    using computed_fields_presence [where data = "[]" and xs = "[]"]
      computed_fields_presence [where data = scalar_root_data
        and xs = "[JInt 1, JInt 2, JNull, JInt 7]"]
      computed_fields_presence [where data = mixed_data
        and xs = "[JInt 1, JInt 2, JNull, JList (root_meta # mixed_children)]"
        and m = root_meta and cs = mixed_children and out = mixed_summary]
      short scalar mixed run
    by simp
qed

text \<open>
  A data array of 4 elements whose element 3 is a number: all three fields are left out.
  A data array whose element 3 is a sequence beginning with a number: \<^verbatim>\<open>total_size\<close> alone
  is left out.
\<close>

theorem long_data_array_fields_omitted:
  "py_len (dict_get_default scalar_root_data ''data'' (JList [])) = Inr 4 \<and>
   generate_metadata (JDict scalar_root_data) = Inr (passthrough scalar_root_data) \<and>
   omits_computed (passthrough scalar_root_data) \<and>
   generate_metadata headless_root_doc = Inr headless_root_summary \<and>
   map_of headless_root_summary ''total_size'' = None \<and>
   map_of headless_root_summary ''top_entries'' \<noteq> None \<and>
   map_of headless_root_summary ''total_entries'' \<noteq> None"
  using scalar_root_run headless_root_run omits_computed_passthrough [of scalar_root_data]
  by (simp add: scalar_root_doc_def scalar_root_data_def dict_get_default_def
      headless_root_summary_def)

section \<open>The dedup set\<close>

declare get_entry_size.simps(1) [simp del]

lemma inode_cases:
  obtains (none) "no_inode d" | (unhashable) "unhashable_inode d" | (some) k where "inode_id d = Some k"
  by (cases "inode_id d") (auto simp: unhashable_inode_def)

lemma inode_id_no_inode: "no_inode d \<Longrightarrow> inode_id d = None"
  by (simp add: inode_id_def)

lemma set_inode_ids: "set (inode_ids ds) = {k. \<exists>d\<in>set ds. inode_id d = Some k}"
  by (induction ds) (auto simp: inode_ids_def List.map_filter_simps split: option.splits)

lemma inode_ids_append: "inode_ids (xs @ ys) = inode_ids xs @ inode_ids ys"
  by (simp add: inode_ids_def List.map_filter_def)

lemma files_subset_mappings: "set (files n) \<subseteq> set (mappings n)"
  by (induction n rule: files.induct) auto

lemma snd_file:
  "S \<subseteq> snd (get_entry_size (JDict d) S) \<and>
   snd (get_entry_size (JDict d) S) \<subseteq> S \<union> set (inode_ids [d])"
proof (cases d rule: inode_cases)
  case none
  then show ?thesis by (simp add: get_entry_size_no_inode)
next
  case unhashable
  then show ?thesis by (simp add: get_entry_size_unhashable)
next
  case (some k)
  then show ?thesis
    by (cases "k \<in> S") (auto simp: get_entry_size_seen get_entry_size_unseen set_inode_ids)
qed

lemma set_growth:
  "S \<subseteq> snd (get_entry_size n S) \<and>
   snd (get_entry_size n S) \<subseteq> S \<union> set (inode_ids (files n))"
  "S \<subseteq> snd (sum_children cs a S) \<and>
   snd (sum_children cs a S) \<subseteq> S \<union> set (inode_ids (concat (map files cs)))"
proof (induction n S and cs a S rule: get_entry_size_sum_children.induct)
  case (1 entry seen_inodes)
  show ?case using snd_file [of seen_inodes entry] by simp
next
  case (3 meta children seen_inodes)
  then show ?case by simp
next
  case (9 child rest total_size seen_inodes)
  obtain r S1 where c: "get_entry_size child seen_inodes = (r, S1)"
    by (cases "get_entry_size child seen_inodes")
  with 9(1) have S1: "seen_inodes \<subseteq> S1" "S1 \<subseteq> seen_inodes \<union> set (inode_ids (files child))"
    by simp_all
  show ?case
  proof (cases r)
    case (Inl e)
    with c S1 show ?thesis by (auto simp: inode_ids_append)
  next
    case (Inr v)
    show ?thesis
    proof (cases "py_add total_size v")
      case (Inl e)
      with c Inr S1 show ?thesis by (auto simp: inode_ids_append)
    next
      case (Inr t)
      with 9(2) [of r S1 v t] c \<open>r = Inr v\<close>
      have "S1 \<subseteq> snd (sum_children rest t S1)"
        "snd (sum_children rest t S1) \<subseteq> S1 \<union> set (inode_ids (concat (map files rest)))"
        by simp_all
      with c \<open>r = Inr v\<close> Inr S1 show ?thesis by (auto simp: inode_ids_append)
    qed
  qed
qed simp_all

text \<open>
  C9. A call of the aggregator on a node \<open>n\<close> with the dedup set \<open>S\<close> leaves a superset of
  \<open>S\<close>, whether it returns or raises, and every element it added is the inode identifier of
  a mapping in the subtree of \<open>n\<close>. The result and the set left are a function of the node
  and the set given: the model has no other state.
\<close>

theorem dedup_set_only_grows:
  "S \<subseteq> snd (get_entry_size n S) \<and>
   (\<forall>k\<in>snd (get_entry_size n S) - S. \<exists>d\<in>set (mappings n). inode_id d = Some k) \<and>
   (n = n' \<and> S = S' \<longrightarrow> get_entry_size n S = get_entry_size n' S')"
proof -
  have "snd (get_entry_size n S) - S \<subseteq> set (inode_ids (files n))"
    using set_growth(1) [of S n] by blast
  also have "\<dots> \<subseteq> {k. \<exists>d\<in>set (mappings n). inode_id d = Some k}"
    using files_subset_mappings [of n] by (auto simp: set_inode_ids)
  finally show ?thesis
    using set_growth(1) [of S n] by blast
qed

theorem dedup_set_only_grows_witness:
  "{KNum 1} \<subseteq> snd (get_entry_size hardlink_dir {KNum 1}) \<and>
   (\<exists>d\<in>set (mappings hardlink_dir). inode_id d = Some (KNum 2))"
proof -
  have ev: "snd (get_entry_size hardlink_dir {KNum 1}) = {KNum 1, KNum 2}"
    by (auto simp: hardlink_dir_def testdir_def file1_def file1_link_def file2_def
        get_entry_size.simps dict_get_def dict_get_default_def)
  show ?thesis
    using dedup_set_only_grows [of "{KNum 1}" hardlink_dir] ev by auto
qed

subsection \<open>Distinct inodes\<close>

lemma well_typed_append [simp]: "well_typed (xs @ ys) \<longleftrightarrow> well_typed xs \<and> well_typed ys"
  by (auto simp: well_typed_def)

lemma nonneg_dsize_append [simp]: "nonneg_dsize (xs @ ys) \<longleftrightarrow> nonneg_dsize xs \<and> nonneg_dsize ys"
  by (auto simp: nonneg_dsize_def)

lemma file_distinct_sum:
  assumes "well_typed [d]" and "set (inode_ids [d]) \<inter> S = {}"
  shows "get_entry_size (JDict d) S = (Inr (JInt (dsize_int d)), S \<union> set (inode_ids [d]))"
proof (cases d rule: inode_cases)
  case none
  with assms show ?thesis
    by (simp add: get_entry_size_no_inode well_typed_def set_inode_ids inode_id_no_inode)
next
  case unhashable
  with assms show ?thesis by (simp add: well_typed_def)
next
  case (some k)
  with assms have "k \<notin> S" by (auto simp: set_inode_ids)
  with some assms show ?thesis
    by (auto simp: get_entry_size_unseen well_typed_def set_inode_ids)
qed

lemma distinct_sum:
  "well_typed (files n) \<Longrightarrow> distinct (inode_ids (files n)) \<Longrightarrow>
     set (inode_ids (files n)) \<inter> S = {} \<Longrightarrow>
     get_entry_size n S =
       (Inr (JInt (sum_list (map dsize_int (files n)))), S \<union> set (inode_ids (files n)))"
  "well_typed (concat (map files cs)) \<Longrightarrow> distinct (inode_ids (concat (map files cs))) \<Longrightarrow>
     set (inode_ids (concat (map files cs))) \<inter> S = {} \<Longrightarrow>
     sum_children cs a S =
       (Inr (JInt (a + sum_list (map dsize_int (concat (map files cs))))),
        S \<union> set (inode_ids (concat (map files cs))))"
proof (induction n S and cs a S rule: get_entry_size_sum_children.induct)
  case (1 entry seen_inodes)
  then show ?case using file_distinct_sum [of entry seen_inodes] by simp
next
  case (3 meta children seen_inodes)
  then show ?case by simp
next
  case (9 child rest total_size seen_inodes)
  let ?S1 = "seen_inodes \<union> set (inode_ids (files child))"
  let ?x = "sum_list (map dsize_int (files child))"
  from 9(3-5) have child: "well_typed (files child)" "distinct (inode_ids (files child))"
    "set (inode_ids (files child)) \<inter> seen_inodes = {}"
    by (auto simp: inode_ids_append)
  from 9(1) [OF this] have c: "get_entry_size child seen_inodes = (Inr (JInt ?x), ?S1)" .
  from 9(3-5) have rest: "well_typed (concat (map files rest))"
    "distinct (inode_ids (concat (map files rest)))"
    "set (inode_ids (concat (map files rest))) \<inter> ?S1 = {}"
    by (auto simp: inode_ids_append)
  have "sum_children rest (total_size + ?x) ?S1 =
      (Inr (JInt (total_size + ?x + sum_list (map dsize_int (concat (map files rest))))),
       ?S1 \<union> set (inode_ids (concat (map files rest))))"
    by (rule 9(2) [OF c [symmetric] refl _ rest]) simp
  with c show ?case by (simp add: inode_ids_append Un_assoc add.assoc)
qed (simp_all add: inode_ids_def)

text \<open>
  C5. For a tree \<open>n\<close> whose File nodes are typed as in the data model and carry pairwise
  distinct inode identifiers (or none), the aggregator from the empty dedup set returns the
  sum of their disk-usage fields and leaves the set of their identifiers. A File node \<open>d\<close>
  with no inode identifier returns its disk-usage field from any dedup set and leaves the
  set as it is; so a directory holding it twice aggregates to twice its size.
\<close>

theorem distinct_inodes_plain_sum:
  "((\<forall>d\<in>set (files n). \<not> unhashable_inode d \<and> dsize_field d = JInt (dsize_int d)) \<and>
    distinct (inode_ids (files n)) \<longrightarrow>
      get_entry_size n {} =
        (Inr (JInt (sum_list (map dsize_int (files n)))), set (inode_ids (files n)))) \<and>
   (no_inode d \<longrightarrow>
      get_entry_size (JDict d) S = (Inr (dsize_field d), S) \<and>
      (dsize_field d = JInt x \<longrightarrow>
         get_entry_size (JList [m, JDict d, JDict d]) S = (Inr (JInt (x + x)), S)))"
proof -
  have a: "get_entry_size n {} =
        (Inr (JInt (sum_list (map dsize_int (files n)))), set (inode_ids (files n)))"
    if "\<forall>d\<in>set (files n). \<not> unhashable_inode d \<and> dsize_field d = JInt (dsize_int d)"
      "distinct (inode_ids (files n))"
    using distinct_sum(1) [of n "{}"] that by (simp add: well_typed_def)
  have b: "get_entry_size (JList [m, JDict d, JDict d]) S = (Inr (JInt (x + x)), S)"
    if "no_inode d" "dsize_field d = JInt x"
    using that by (simp add: get_entry_size_no_inode)
  show ?thesis using a b by (simp add: get_entry_size_no_inode)
qed

theorem distinct_inodes_plain_sum_witness:
  "get_entry_size nested_dir {} = (Inr (JInt 8192), {KNum 1, KNum 2}) \<and>
   get_entry_size (JList [testdir, JDict nameless, JDict nameless]) {KNum 1} =
     (Inr (JInt 1024), {KNum 1})"
proof -
  have typed: "\<forall>d\<in>set (files nested_dir).
      \<not> unhashable_inode d \<and> dsize_field d = JInt (dsize_int d)"
    by (simp add: nested_dir_def root_meta_def testdir_def file1_def file2_def
        unhashable_inode_def inode_id_def no_inode_def dict_get_def dsize_field_def dsize_int_def)
  have ids: "inode_ids (files nested_dir) = [KNum 1, KNum 2]"
    by (simp add: nested_dir_def root_meta_def testdir_def file1_def file2_def
        inode_ids_def List.map_filter_simps inode_id_def no_inode_def dict_get_def)
  have total: "sum_list (map dsize_int (files nested_dir)) = 8192"
    by (simp add: nested_dir_def root_meta_def testdir_def file1_def file2_def
        dsize_field_def dsize_int_def)
  have no: "no_inode nameless" and ds: "dsize_field nameless = JInt 512"
    by (simp_all add: nameless_def no_inode_def dsize_field_def)
  show ?thesis
    using distinct_inodes_plain_sum [where n = nested_dir and d = nameless and S = "{KNum 1}"
        and x = 512 and m = testdir]
      typed ids total no ds
    by auto
qed

subsection \<open>Pre-seeded dedup sets\<close>

lemma raises_type_error:
  "fst (get_entry_size n S) = Inl e \<Longrightarrow> e = TypeError"
  "fst (sum_children cs a S) = Inl e \<Longrightarrow> e = TypeError"
proof (induction n S and cs a S rule: get_entry_size_sum_children.induct)
  case (1 entry seen_inodes)
  show ?case
  proof (cases entry rule: inode_cases)
    case (some k)
    with 1 show ?thesis
      by (cases "k \<in> seen_inodes") (simp_all add: get_entry_size_seen get_entry_size_unseen)
  qed (use 1 in \<open>simp_all add: get_entry_size_no_inode get_entry_size_unhashable\<close>)
next
  case (9 child rest total_size seen_inodes)
  obtain r S1 where c: "get_entry_size child seen_inodes = (r, S1)"
    by (cases "get_entry_size child seen_inodes")
  show ?case
  proof (cases r)
    case (Inl e')
    with c 9(1,3) show ?thesis by simp
  next
    case (Inr v)
    show ?thesis
    proof (cases "py_add total_size v")
      case (Inl e')
      with c Inr 9(3) show ?thesis by (cases v) auto
    next
      case (Inr t)
      with c \<open>r = Inr v\<close> 9(2) [of r S1 v t] 9(3) show ?thesis by simp
    qed
  qed
qed simp_all

lemma file_returns:
  assumes "\<not> unhashable_inode d"
  shows "fst (get_entry_size (JDict d) S) = Inr (JInt 0) \<or>
         fst (get_entry_size (JDict d) S) = Inr (dsize_field d)"
proof (cases d rule: inode_cases)
  case (some k)
  then show ?thesis
    by (cases "k \<in> S") (simp_all add: get_entry_size_seen get_entry_size_unseen)
qed (use assms in \<open>simp_all add: get_entry_size_no_inode\<close>)

lemma typed_returns:
  "well_typed (files n) \<Longrightarrow> \<exists>b. fst (get_entry_size n S) = Inr (JInt b)"
  "well_typed (concat (map files cs)) \<Longrightarrow> \<exists>b. fst (sum_children cs a S) = Inr (JInt b)"
proof (induction n S and cs a S rule: get_entry_size_sum_children.induct)
  case (1 entry seen_inodes)
  then show ?case
    using file_returns [of entry seen_inodes] by (auto simp: well_typed_def)
next
  case (9 child rest total_size seen_inodes)
  from 9(1,3) obtain b S1 where c: "get_entry_size child seen_inodes = (Inr (JInt b), S1)"
    by (cases "get_entry_size child seen_inodes") auto
  from 9(2) [OF c [symmetric] refl, of "total_size + b"] 9(3) c show ?case
    by simp
qed simp_all

lemma file_antitone:
  assumes "S \<subseteq> T" and "nonneg_dsize [d]"
  shows "(\<exists>e. fst (get_entry_size (JDict d) S) = Inl e \<and> fst (get_entry_size (JDict d) T) = Inl e) \<or>
    (\<exists>a b. fst (get_entry_size (JDict d) S) = Inr (JInt b) \<and>
       fst (get_entry_size (JDict d) T) = Inr (JInt a) \<and> a \<le> b \<and>
       snd (get_entry_size (JDict d) S) \<subseteq> snd (get_entry_size (JDict d) T))"
proof -
  from assms(2) obtain x where x: "0 \<le> x" "dsize_field d = JInt x"
    by (auto simp: nonneg_dsize_def)
  show ?thesis
  proof (cases d rule: inode_cases)
    case none
    with assms(1) x show ?thesis by (simp add: get_entry_size_no_inode)
  next
    case unhashable
    then show ?thesis by (simp add: get_entry_size_unhashable)
  next
    case (some k)
    consider "k \<in> S" "k \<in> T" | "k \<notin> S" "k \<in> T" | "k \<notin> S" "k \<notin> T"
      using assms(1) by blast
    then show ?thesis
      using some x assms(1)
      by cases (auto simp: get_entry_size_seen get_entry_size_unseen)
  qed
qed

lemma antitone_relI_err: "antitone_rel (Inl e, S) (Inl e, T)"
  by (simp add: antitone_rel_def)

lemma antitone_relI_ok: "a \<le> b \<Longrightarrow> S \<subseteq> T \<Longrightarrow> antitone_rel (Inr (JInt b), S) (Inr (JInt a), T)"
  by (simp add: antitone_rel_def)

lemma antitone_relE:
  assumes "antitone_rel (r, S) (r', T)"
  obtains (err) e where "r = Inl e" "r' = Inl e"
    | (ok) a b where "r = Inr (JInt b)" "r' = Inr (JInt a)" "a \<le> b" "S \<subseteq> T"
  using assms unfolding antitone_rel_def by auto

lemma file_antitone_rel:
  assumes "S \<subseteq> T" and "nonneg_dsize [d]"
  shows "antitone_rel (get_entry_size (JDict d) S) (get_entry_size (JDict d) T)"
  using file_antitone [OF assms] unfolding antitone_rel_def .

lemma antitone_aux:
  "S \<subseteq> T \<Longrightarrow> nonneg_dsize (files n) \<Longrightarrow>
     antitone_rel (get_entry_size n S) (get_entry_size n T)"
  "S \<subseteq> T \<Longrightarrow> a' \<le> a \<Longrightarrow> nonneg_dsize (concat (map files cs)) \<Longrightarrow>
     antitone_rel (sum_children cs a S) (sum_children cs a' T)"
proof (induction n S and cs a S arbitrary: T and T a' rule: get_entry_size_sum_children.induct)
  case (1 entry seen_inodes)
  then show ?case by (simp add: file_antitone_rel)
next
  case (2 seen_inodes)
  then show ?case by (simp add: antitone_relI_ok)
next
  case (3 meta children seen_inodes)
  from 3(1) [OF 3(2) order_refl] 3(3) show ?case by simp
next
  case (4 seen_inodes)
  then show ?case by (simp add: antitone_relI_ok)
next
  case (5 b seen_inodes)
  then show ?case by (simp add: antitone_relI_ok)
next
  case (6 n seen_inodes)
  then show ?case by (simp add: antitone_relI_ok)
next
  case (7 s seen_inodes)
  then show ?case by (simp add: antitone_relI_ok)
next
  case (8 total_size seen_inodes)
  then show ?case by (simp add: antitone_relI_ok)
next
  case (9 child rest total_size seen_inodes)
  obtain r S1 where cS: "get_entry_size child seen_inodes = (r, S1)"
    by (cases "get_entry_size child seen_inodes")
  obtain r' T1 where cT: "get_entry_size child T = (r', T1)"
    by (cases "get_entry_size child T")
  from 9(5) have nnc: "nonneg_dsize (files child)" and nnr: "nonneg_dsize (concat (map files rest))"
    by simp_all
  from 9(1) [OF 9(3) nnc] cS cT have "antitone_rel (r, S1) (r', T1)" by simp
  then show ?case
  proof (cases rule: antitone_relE)
    case (err e)
    with cS cT show ?thesis by (simp add: antitone_relI_err)
  next
    case (ok x y)
    have add: "py_add total_size (JInt y) = Inr (total_size + y)" by simp
    have le: "a' + x \<le> total_size + y" using ok(3) 9(4) by simp
    have "antitone_rel (sum_children rest (total_size + y) S1) (sum_children rest (a' + x) T1)"
      by (rule 9(2) [OF cS [symmetric] ok(1) add ok(4) le nnr])
    with cS cT ok(1,2) show ?thesis by simp
  qed
qed

lemma nonneg_well_typed:
  "nonneg_dsize ds \<Longrightarrow> \<forall>d\<in>set ds. \<not> unhashable_inode d \<Longrightarrow> well_typed ds"
  unfolding well_typed_def nonneg_dsize_def dsize_int_def by fastforce

text \<open>
  C10. For a node \<open>n\<close> in whose subtree every mapping has a nonnegative integer as its
  disk-usage field (a missing field counts as 0), and dedup sets \<open>S \<subseteq> T\<close>: the aggregator
  returns integers from both sets, and the one from \<open>T\<close> is at most the one from \<open>S\<close>. The
  only other outcome is that both calls raise \<^verbatim>\<open>TypeError\<close>, which needs a File node with a
  list or an object under \<^verbatim>\<open>ino\<close>.
\<close>

theorem aggregate_antitone:
  "(\<forall>d\<in>set (mappings n). \<exists>x. 0 \<le> x \<and> dsize_field d = JInt x) \<and> S \<subseteq> T \<longrightarrow>
     (\<exists>a b. fst (get_entry_size n T) = Inr (JInt a) \<and> fst (get_entry_size n S) = Inr (JInt b) \<and>
        a \<le> b) \<or>
     (fst (get_entry_size n T) = Inl TypeError \<and> fst (get_entry_size n S) = Inl TypeError \<and>
        (\<exists>d\<in>set (files n). unhashable_inode d))"
proof
  assume a: "(\<forall>d\<in>set (mappings n). \<exists>x. 0 \<le> x \<and> dsize_field d = JInt x) \<and> S \<subseteq> T"
  then have nn: "nonneg_dsize (files n)"
    using files_subset_mappings [of n] unfolding nonneg_dsize_def by blast
  obtain r S1 where cS: "get_entry_size n S = (r, S1)" by (cases "get_entry_size n S")
  obtain r' T1 where cT: "get_entry_size n T = (r', T1)" by (cases "get_entry_size n T")
  from a nn antitone_aux(1) [of S T n] cS cT have "antitone_rel (r, S1) (r', T1)" by simp
  then show "(\<exists>a b. fst (get_entry_size n T) = Inr (JInt a) \<and> fst (get_entry_size n S) = Inr (JInt b) \<and>
        a \<le> b) \<or>
     (fst (get_entry_size n T) = Inl TypeError \<and> fst (get_entry_size n S) = Inl TypeError \<and>
        (\<exists>d\<in>set (files n). unhashable_inode d))"
  proof (cases rule: antitone_relE)
    case (ok x y)
    with cS cT show ?thesis by simp
  next
    case (err e)
    with cS have e: "e = TypeError" using raises_type_error(1) [of n S e] by simp
    have "\<exists>d\<in>set (files n). unhashable_inode d"
    proof (rule ccontr)
      assume "\<not> (\<exists>d\<in>set (files n). unhashable_inode d)"
      with nn have "well_typed (files n)" by (simp add: nonneg_well_typed)
      from typed_returns(1) [OF this, of S] err(1) cS show False by simp
    qed
    with err e cS cT show ?thesis by simp
  qed
qed

theorem aggregate_antitone_witness:
  "\<exists>a b. fst (get_entry_size hardlink_dir {KNum 2}) = Inr (JInt a) \<and>
     fst (get_entry_size hardlink_dir {}) = Inr (JInt b) \<and> a \<le> b"
proof -
  have h: "\<forall>d\<in>set (mappings hardlink_dir). \<exists>x. 0 \<le> x \<and> dsize_field d = JInt x"
    by (simp add: hardlink_dir_def testdir_def file1_def file1_link_def file2_def dsize_field_def)
  have u: "\<not> (\<exists>d\<in>set (files hardlink_dir). unhashable_inode d)"
    by (simp add: hardlink_dir_def testdir_def file1_def file1_link_def file2_def
        unhashable_inode_def inode_id_def no_inode_def dict_get_def)
  show ?thesis
    using aggregate_antitone [of hardlink_dir "{}" "{KNum 2}"] h u by blast
qed

end
